theory Spec2Isabelle
  imports Complex_Main "HOL-Library.Multiset"
begin

section \<open>The runtime the generator is written against\<close>

text \<open>
  \<^verbatim>\<open>src/utils/generator.ts\<close> computes with JavaScript numbers, with \<^verbatim>\<open>Date\<close> objects and
  with three functions of date-fns. The parts of them that \<^verbatim>\<open>generatePlan\<close> reaches are
  modelled here.

  A number is \<^verbatim>\<open>NaN\<close> or a finite value, kept as an exact rational (the quotients the
  generator forms are of small integers, where the rounding of doubles changes no
  comparison and no ceiling). Infinities and the sign of zero never arise.
\<close>

datatype number = NaN | Num rat

fun js_sub :: "number \<Rightarrow> number \<Rightarrow> number" where
  "js_sub (Num a) (Num b) = Num (a - b)"
| "js_sub _ _ = NaN"

fun js_div :: "number \<Rightarrow> number \<Rightarrow> number" where
  "js_div (Num a) (Num b) = (if b = 0 then NaN else Num (a / b))"
| "js_div _ _ = NaN"

text \<open>Every comparison with \<^verbatim>\<open>NaN\<close> is false.\<close>

fun js_lt :: "number \<Rightarrow> number \<Rightarrow> bool" where
  "js_lt (Num a) (Num b) = (a < b)"
| "js_lt _ _ = False"

fun js_ge :: "number \<Rightarrow> number \<Rightarrow> bool" where
  "js_ge (Num a) (Num b) = (a \<ge> b)"
| "js_ge _ _ = False"

fun js_gt :: "number \<Rightarrow> number \<Rightarrow> bool" where
  "js_gt (Num a) (Num b) = (a > b)"
| "js_gt _ _ = False"

text \<open>\<^verbatim>\<open>Math.max\<close> is \<^verbatim>\<open>NaN\<close> as soon as one argument is; \<^verbatim>\<open>Math.ceil(NaN)\<close> is \<^verbatim>\<open>NaN\<close>.\<close>

fun Math_max :: "number \<Rightarrow> number \<Rightarrow> number" where
  "Math_max (Num a) (Num b) = Num (max a b)"
| "Math_max _ _ = NaN"

fun Math_ceil :: "number \<Rightarrow> number" where
  "Math_ceil (Num a) = Num (of_int \<lceil>a\<rceil>)"
| "Math_ceil NaN = NaN"

text \<open>
  A \<^verbatim>\<open>Date\<close> is the Invalid Date or a point in time. The generator reads a date only
  through the calendar day it falls on in local time (\<^verbatim>\<open>format\<close> prints the day,
  \<^verbatim>\<open>differenceInCalendarDays\<close> cuts both dates to the start of their day, \<^verbatim>\<open>addDays\<close>
  keeps the time of day, and the dates the sorter compares are parsed from day-only
  strings, so that their times are the local midnights, ascending with the day). A
  valid date is therefore its day number, counted from a fixed day zero, and its time
  is taken at \<open>msPerDay\<close> per day. The upper end of the \<^verbatim>\<open>Date\<close> range (some 270000
  years from now) is outside the model: there \<^verbatim>\<open>addDays\<close> gives the Invalid Date, on which
  \<^verbatim>\<open>format\<close> throws, while in the model \<open>addDays\<close> of a valid date is valid. What is
  proved of the rows of a plan is proved of a plan that was returned; that a plan is
  returned is stated only where the dates of the plan stay near the clock's day or
  where the loop does not run.
\<close>

datatype date = Invalid | Day int

fun addDays :: "date \<Rightarrow> int \<Rightarrow> date" where
  "addDays (Day d) n = Day (d + n)"
| "addDays Invalid n = Invalid"

fun differenceInCalendarDays :: "date \<Rightarrow> date \<Rightarrow> number" where
  "differenceInCalendarDays (Day a) (Day b) = Num (of_int (a - b))"
| "differenceInCalendarDays _ _ = NaN"

definition msPerDay :: int where
  "msPerDay = 86400000"

fun getTime :: "date \<Rightarrow> number" where
  "getTime (Day d) = Num (of_int (d * msPerDay))"
| "getTime Invalid = NaN"

text \<open>
  Two functions belong to the runtime and not to the repository: the engine's
  \<^verbatim>\<open>new Date(string)\<close>, whose reading of anything but the ISO formats is left to the
  implementation by ECMAScript, and date-fns' \<^verbatim>\<open>format(d, 'EEE, MMM d yyyy')\<close> on a valid
  date, which depends on the calendar day alone. They are parameters of the model.
\<close>

record runtime =
  dateParse :: "string \<Rightarrow> date"
  dateFormat :: "int \<Rightarrow> string"

datatype error = RangeError

text \<open>\<^verbatim>\<open>const fmt = (d: Date) => format(d, 'EEE, MMM d yyyy')\<close>; date-fns' \<^verbatim>\<open>format\<close>
  throws a \<^verbatim>\<open>RangeError\<close> on the Invalid Date.\<close>

fun fmt :: "runtime \<Rightarrow> date \<Rightarrow> error + string" where
  "fmt rt (Day d) = Inr (dateFormat rt d)"
| "fmt rt Invalid = Inl RangeError"

section \<open>The data model\<close>

datatype PlanType = race | maintenance | maintenance_plus

datatype CourseProfile = flat | rolling | hilly | ultra

datatype RaceDistance = d10k | half | marathon | d50k | custom

datatype HeatBlock = none | monoblock | biphasic

datatype TimeVsDistance = time | distance

text \<open>\<^verbatim>\<open>PlanInputs\<close>, the type inferred from \<^verbatim>\<open>PlanSchema\<close> in
  \<^verbatim>\<open>src/components/InputForm.tsx\<close>; an optional field is an \<open>option\<close>.\<close>

record PlanInputs =
  planType :: PlanType
  maxHR :: rat
  courseProfile :: CourseProfile
  raceDate :: "string option"
  raceDistance :: RaceDistance
  customDistanceKm :: "rat option"
  vt1 :: "rat option"
  vo2max :: "rat option"
  currentHours :: "rat option"
  maxHours :: "rat option"
  firefighter :: "bool option"
  shiftPattern :: "string option"
  nextShiftISO :: "string option"
  heatBlock :: HeatBlock
  strength :: bool
  timeVsDistance :: TimeVsDistance

record PlanRow =
  date :: string
  session :: string

section \<open>The generator\<close>

subsection \<open>Plan length\<close>

text \<open>
  Lines 24 to 34 of \<^verbatim>\<open>generatePlan\<close>. \<open>today\<close> is the day of \<^verbatim>\<open>new Date()\<close>, always a
  valid date. \<^verbatim>\<open>inputs.raceDate ? new Date(inputs.raceDate) : today\<close> takes the second
  branch for a missing field and for the empty string, the two falsy values of the
  field's type.
\<close>

definition raceDateOf :: "runtime \<Rightarrow> int \<Rightarrow> PlanInputs \<Rightarrow> date" where
  "raceDateOf rt today inputs =
     (case raceDate inputs of
        None \<Rightarrow> Day today
      | Some s \<Rightarrow> if s = [] then Day today else dateParse rt s)"

definition totalWeeks :: "runtime \<Rightarrow> int \<Rightarrow> PlanInputs \<Rightarrow> number" where
  "totalWeeks rt today inputs =
     (if planType inputs = race then
        (let daysUntil = differenceInCalendarDays (raceDateOf rt today inputs) (Day today)
         in Math_max (Num 4) (Math_ceil (js_div daysUntil (Num 7))))
      else Num 12)"

subsection \<open>Session texts\<close>

text \<open>
  A string is the list of the bytes of its UTF-8 form; the four characters of the
  session texts outside ASCII (the en dash, the multiplication sign, the subscript two
  and the degree sign) are written out by their bytes.
\<close>

definition enDash :: string where
  "enDash = [CHR 0xE2, CHR 0x80, CHR 0x93]"

definition timesSign :: string where
  "timesSign = [CHR 0xC3, CHR 0x97]"

definition subscriptTwo :: string where
  "subscriptTwo = [CHR 0xE2, CHR 0x82, CHR 0x82]"

definition degreeSign :: string where
  "degreeSign = [CHR 0xC2, CHR 0xB0]"

text \<open>The decimal digits of a natural number, as a template literal prints the
  integer \<^verbatim>\<open>longRunMin\<close>.\<close>

definition digitChar :: "nat \<Rightarrow> char" where
  "digitChar d = ''0123456789'' ! d"

fun digitsOf :: "nat \<Rightarrow> string" where
  "digitsOf n =
     (if n < 10 then [digitChar n]
      else digitsOf (n div 10) @ [digitChar (n mod 10)])"

declare digitsOf.simps [simp del]

definition longRunSession :: "nat \<Rightarrow> string" where
  "longRunSession longRunMin =
     ''Long run '' @ enDash @ '' '' @ digitsOf longRunMin @ '' min easy''"

definition thresholdSession :: string where
  "thresholdSession = ''Threshold 20 min continuous''"

definition uphillTempoSession :: string where
  "uphillTempoSession = ''Uphill-Tempo 6'' @ timesSign @ ''5 min''"

definition vo2Session :: string where
  "vo2Session = ''VO'' @ subscriptTwo @ ''max 4'' @ timesSign @ ''4 min''"

definition hwiSession :: string where
  "hwiSession = ''HWI 19 min @ 40'' @ degreeSign @ ''C''"

definition additionalVo2Session :: string where
  "additionalVo2Session = ''Additional VO'' @ subscriptTwo @ '' 4'' @ timesSign @ ''4 min''"

subsection \<open>Volume ramp\<close>

text \<open>
  Lines 36 to 42 and 53 to 58: the weekly target hours. \<^verbatim>\<open>x || y\<close> is \<^verbatim>\<open>y\<close> when
  \<^verbatim>\<open>x\<close> is missing or zero. The loop computes \<^verbatim>\<open>targetHrs\<close> every week and reads it
  nowhere.
\<close>

definition lerp :: "number \<Rightarrow> number \<Rightarrow> number \<Rightarrow> number" where
  "lerp start end' t =
     (case (start, end', t) of
        (Num s, Num e, Num u) \<Rightarrow> Num (s + (e - s) * u)
      | _ \<Rightarrow> NaN)"

definition curHrs :: "PlanInputs \<Rightarrow> rat" where
  "curHrs inputs =
     (case currentHours inputs of None \<Rightarrow> 5 | Some h \<Rightarrow> if h = 0 then 5 else h)"

definition maxHrs :: "PlanInputs \<Rightarrow> rat" where
  "maxHrs inputs =
     (let dflt = (if planType inputs = race then max (curHrs inputs + 2) 10
                  else max (curHrs inputs + 2) 8)
      in case maxHours inputs of None \<Rightarrow> dflt | Some h \<Rightarrow> if h = 0 then dflt else h)"

definition longSeed :: "PlanInputs \<Rightarrow> nat" where
  "longSeed inputs = (if planType inputs = race then 90 else 60)"

subsection \<open>The week loop\<close>

text \<open>An exception leaves the function at once: \<open>thenE\<close> runs the rest only after a
  normal result.\<close>

definition thenE :: "error + 'a \<Rightarrow> ('a \<Rightarrow> error + 'b) \<Rightarrow> error + 'b" where
  "thenE r f = (case r of Inl e \<Rightarrow> Inl e | Inr x \<Rightarrow> f x)"

text \<open>\<^verbatim>\<open>rows.push({ date: fmt(d), session: s })\<close>.\<close>

definition pushRow :: "runtime \<Rightarrow> PlanRow list \<Rightarrow> date \<Rightarrow> string \<Rightarrow> error + PlanRow list" where
  "pushRow rt rows d s =
     thenE (fmt rt d) (\<lambda>ds. Inr (rows @ [\<lparr>date = ds, session = s\<rparr>]))"

text \<open>The body of the loop, lines 50 to 125, for week \<open>w\<close>: it takes the rows pushed
  so far and returns them with this week's rows appended.\<close>

definition weekBody ::
  "runtime \<Rightarrow> int \<Rightarrow> PlanInputs \<Rightarrow> number \<Rightarrow> nat \<Rightarrow> PlanRow list \<Rightarrow> error + PlanRow list" where
  "weekBody rt today inputs tw w rows =
     (let weekStart = addDays (Day today) (int w * 7);
          t = (if js_gt tw (Num 1) then js_div (Num (of_nat w)) (js_sub tw (Num 1)) else Num 1);
          targetHrs = lerp (Num (curHrs inputs)) (Num (maxHrs inputs)) t;
          longRunMin = longSeed inputs + w * 10;
          longRunDate = addDays weekStart 6
      in
      thenE (pushRow rt rows longRunDate (longRunSession longRunMin)) (\<lambda>rows.
      let wednesdayDate = addDays weekStart 2;
          thrSession =
            (if courseProfile inputs = flat then thresholdSession
             else if w mod 2 = 0 then uphillTempoSession else thresholdSession)
      in
      thenE (pushRow rt rows wednesdayDate thrSession) (\<lambda>rows.
      thenE (if w mod 4 \<noteq> 3
             then pushRow rt rows (addDays weekStart 4) vo2Session
             else Inr rows) (\<lambda>rows.
      thenE (if planType inputs = race \<and> heatBlock inputs \<noteq> none then
               thenE (if heatBlock inputs = monoblock
                         \<and> js_ge (Num (of_nat w)) (js_sub tw (Num 2))
                      then pushRow rt rows (addDays weekStart 1) hwiSession
                      else Inr rows) (\<lambda>rows.
               if heatBlock inputs = biphasic
                    \<and> (w < 2 \<or> js_ge (Num (of_nat w)) (js_sub tw (Num 2)))
               then pushRow rt rows (addDays weekStart 1) hwiSession
               else Inr rows)
             else Inr rows) (\<lambda>rows.
      if planType inputs = maintenance_plus \<and> w mod 2 = 1 \<and> w mod 4 \<noteq> 3
      then pushRow rt rows (addDays weekStart 5) additionalVo2Session
      else Inr rows)))))"

text \<open>\<^verbatim>\<open>for (let w = 0; w < totalWeeks; w++)\<close>. With \<open>tw = NaN\<close> the test is false at
  once.\<close>

function weekLoop ::
  "runtime \<Rightarrow> int \<Rightarrow> PlanInputs \<Rightarrow> number \<Rightarrow> nat \<Rightarrow> PlanRow list \<Rightarrow> error + PlanRow list" where
  "weekLoop rt today inputs tw w rows =
     (if js_lt (Num (of_nat w)) tw then
        (case weekBody rt today inputs tw w rows of
           Inl e \<Rightarrow> Inl e
         | Inr rows' \<Rightarrow> weekLoop rt today inputs tw (w + 1) rows')
      else Inr rows)"
  by pat_completeness auto
termination
proof (relation "measure (\<lambda>(rt, today, inputs, tw, w, rows).
                   case tw of NaN \<Rightarrow> 0 | Num n \<Rightarrow> nat \<lceil>n\<rceil> - w)")
  show "wf (measure (\<lambda>(rt :: runtime, today :: int, inputs :: PlanInputs, tw, w, rows :: PlanRow list).
                   case tw of NaN \<Rightarrow> 0 | Num n \<Rightarrow> nat \<lceil>n\<rceil> - w))"
    by simp
next
  fix rt :: runtime and today :: int and inputs :: PlanInputs and tw w
    and rows x2 :: "PlanRow list"
  assume lt: "js_lt (Num (of_nat w)) tw"
  then obtain n where tw: "tw = Num n" and wn: "of_nat w < n"
    by (cases tw) auto
  have "of_nat w < (of_int \<lceil>n\<rceil> :: rat)"
    using wn le_of_int_ceiling [of n] by linarith
  then have "int w < \<lceil>n\<rceil>"
    by (metis of_int_less_iff of_int_of_nat_eq)
  then show "((rt, today, inputs, tw, w + 1, x2), (rt, today, inputs, tw, w, rows))
      \<in> measure (\<lambda>(rt, today, inputs, tw, w, rows).
                   case tw of NaN \<Rightarrow> 0 | Num n \<Rightarrow> nat \<lceil>n\<rceil> - w)"
    using tw by simp
qed

declare weekLoop.simps [simp del]

subsection \<open>Chronological sort\<close>

text \<open>
  Lines 131 to 134. The comparator parses both display strings again and subtracts the
  times. \<^verbatim>\<open>Array.prototype.sort\<close> takes a comparator result of \<^verbatim>\<open>NaN\<close> for zero and is
  stable: an element moves behind exactly the elements the comparator puts strictly
  before it. The order it gives under an inconsistent comparator is the
  implementation's; the model is the stable insertion sort.
\<close>

definition compareRows :: "runtime \<Rightarrow> PlanRow \<Rightarrow> PlanRow \<Rightarrow> number" where
  "compareRows rt a b =
     js_sub (getTime (dateParse rt (date a))) (getTime (dateParse rt (date b)))"

fun insertBy :: "('a \<Rightarrow> 'a \<Rightarrow> number) \<Rightarrow> 'a \<Rightarrow> 'a list \<Rightarrow> 'a list" where
  "insertBy cmp x [] = [x]"
| "insertBy cmp x (y # ys) =
     (if js_gt (cmp x y) (Num 0) then y # insertBy cmp x ys else x # y # ys)"

fun Array_sort :: "('a \<Rightarrow> 'a \<Rightarrow> number) \<Rightarrow> 'a list \<Rightarrow> 'a list" where
  "Array_sort cmp [] = []"
| "Array_sort cmp (x # xs) = insertBy cmp x (Array_sort cmp xs)"

subsection \<open>generatePlan\<close>

definition generatePlan :: "runtime \<Rightarrow> int \<Rightarrow> PlanInputs \<Rightarrow> error + PlanRow list" where
  "generatePlan rt today inputs =
     (let tw = totalWeeks rt today inputs
      in thenE (weekLoop rt today inputs tw 0 [])
           (\<lambda>rows. Inr (Array_sort (compareRows rt) rows)))"

section \<open>A reference runtime\<close>

text \<open>
  One concrete runtime, for the examples: the calendar in UTC, date-fns' rendering of
  the pattern \<^verbatim>\<open>EEE, MMM d yyyy\<close>, and a \<^verbatim>\<open>new Date\<close> that reads the ISO form
  \<^verbatim>\<open>yyyy-MM-dd\<close> and the display form back and takes everything else for the Invalid
  Date.
\<close>

definition weekdayNames :: "string list" where
  "weekdayNames = [''Sun'', ''Mon'', ''Tue'', ''Wed'', ''Thu'', ''Fri'', ''Sat'']"

definition monthNames :: "string list" where
  "monthNames = [''Jan'', ''Feb'', ''Mar'', ''Apr'', ''May'', ''Jun'',
                 ''Jul'', ''Aug'', ''Sep'', ''Oct'', ''Nov'', ''Dec'']"

text \<open>
  The proleptic Gregorian calendar, day 0 being Thursday 1 January 1970. Days are
  counted from 1 March of year 0 and fall into eras of 400 years (146097 days); within
  an era the year, and within the year (March to February) the month and the day,
  follow by division. Each step hands its results on as arguments.
\<close>

definition civilOfMonth :: "int \<Rightarrow> int \<Rightarrow> int \<Rightarrow> int \<times> int \<times> int" where
  "civilOfMonth y m dd = (if m \<le> 2 then y + 1 else y, m, dd)"

definition civilOfMarchMonth :: "int \<Rightarrow> int \<Rightarrow> int \<Rightarrow> int \<times> int \<times> int" where
  "civilOfMarchMonth y doy mp =
     civilOfMonth y (if mp < 10 then mp + 3 else mp - 9) (doy - (153 * mp + 2) div 5 + 1)"

definition civilOfDayOfYear :: "int \<Rightarrow> int \<Rightarrow> int \<times> int \<times> int" where
  "civilOfDayOfYear y doy = civilOfMarchMonth y doy ((5 * doy + 2) div 153)"

definition civilOfYearOfEra :: "int \<Rightarrow> int \<Rightarrow> int \<Rightarrow> int \<times> int \<times> int" where
  "civilOfYearOfEra era doe yoe =
     civilOfDayOfYear (yoe + era * 400) (doe - (365 * yoe + yoe div 4 - yoe div 100))"

definition civilOfEra :: "int \<Rightarrow> int \<Rightarrow> int \<times> int \<times> int" where
  "civilOfEra era doe =
     civilOfYearOfEra era doe ((doe - doe div 1460 + doe div 36524 - doe div 146096) div 365)"

definition civilFromDays :: "int \<Rightarrow> int \<times> int \<times> int" where
  "civilFromDays d = civilOfEra ((d + 719468) div 146097) ((d + 719468) mod 146097)"

definition marchYear :: "int \<Rightarrow> int \<Rightarrow> int" where
  "marchYear y m = (if m \<le> 2 then y - 1 else y)"

definition daysFromCivil :: "int \<Rightarrow> int \<Rightarrow> int \<Rightarrow> int" where
  "daysFromCivil y m d =
     (marchYear y m div 400) * 146097
     + (marchYear y m mod 400) * 365 + (marchYear y m mod 400) div 4
     - (marchYear y m mod 400) div 100
     + (153 * (if m > 2 then m - 3 else m + 9) + 2) div 5 + d - 1 - 719468"

definition padZeros :: "nat \<Rightarrow> string \<Rightarrow> string" where
  "padZeros width s = replicate (width - length s) CHR ''0'' @ s"

text \<open>\<^verbatim>\<open>EEE, MMM d yyyy\<close>: the weekday, the month, the day of the month and the year
  (of the era, so year 0 prints as 1), the year with at least four digits.\<close>

fun formatCivil :: "nat \<Rightarrow> int \<times> int \<times> int \<Rightarrow> string" where
  "formatCivil wd (y, m, dd) =
     weekdayNames ! wd @ '', '' @ monthNames ! nat (m - 1) @ '' '' @ digitsOf (nat dd) @ '' ''
     @ padZeros 4 (digitsOf (nat (if y > 0 then y else 1 - y)))"

definition formatDay :: "int \<Rightarrow> string" where
  "formatDay d = formatCivil (nat ((d + 4) mod 7)) (civilFromDays d)"

fun splitOn :: "char \<Rightarrow> string \<Rightarrow> string list" where
  "splitOn c [] = [[]]"
| "splitOn c (x # xs) =
     (if x = c then [] # splitOn c xs
      else (case splitOn c xs of t # ts \<Rightarrow> (x # t) # ts | [] \<Rightarrow> [[x]]))"

fun numberOfDigits :: "nat \<Rightarrow> string \<Rightarrow> nat option" where
  "numberOfDigits acc [] = Some acc"
| "numberOfDigits acc (c # cs) =
     (if 48 \<le> (of_char c :: nat) \<and> (of_char c :: nat) \<le> 57
      then numberOfDigits (10 * acc + (of_char c - 48)) cs else None)"

definition readNat :: "string \<Rightarrow> nat option" where
  "readNat s = (if s = [] then None else numberOfDigits 0 s)"

fun indexOf :: "'a \<Rightarrow> 'a list \<Rightarrow> nat option" where
  "indexOf x [] = None"
| "indexOf x (y # ys) = (if x = y then Some 0 else map_option Suc (indexOf x ys))"

definition civilDate :: "nat option \<Rightarrow> nat option \<Rightarrow> nat option \<Rightarrow> date" where
  "civilDate y m d =
     (case (y, m, d) of
        (Some y', Some m', Some d') \<Rightarrow>
          if 1 \<le> m' \<and> m' \<le> 12 \<and> 1 \<le> d' \<and> d' \<le> 31
          then Day (daysFromCivil (int y') (int m') (int d')) else Invalid
      | _ \<Rightarrow> Invalid)"

definition parseDay :: "string \<Rightarrow> date" where
  "parseDay s =
     (case splitOn CHR '' '' s of
        [wd, mon, dd, yy] \<Rightarrow>
          civilDate (readNat yy) (map_option Suc (indexOf mon monthNames)) (readNat dd)
      | [isoDate] \<Rightarrow>
          (case splitOn CHR ''-'' isoDate of
             [yy, mm, dd] \<Rightarrow>
               if length yy = 4 \<and> length mm = 2 \<and> length dd = 2
               then civilDate (readNat yy) (readNat mm) (readNat dd) else Invalid
           | _ \<Rightarrow> Invalid)
      | _ \<Rightarrow> Invalid)"

definition utcRuntime :: runtime where
  "utcRuntime = \<lparr>dateParse = parseDay, dateFormat = formatDay\<rparr>"

text \<open>
  The scenario of the specification, with today on day 20241 (Monday 2 June 2025) and
  the race 28 days later; and the same input with a race date that is no date.
\<close>

definition scenario :: PlanInputs where
  "scenario =
     \<lparr>planType = race, maxHR = 180, courseProfile = flat, raceDate = Some ''2025-06-30'',
      raceDistance = d50k, customDistanceKm = None, vt1 = None, vo2max = None,
      currentHours = None, maxHours = None, firefighter = None, shiftPattern = None,
      nextShiftISO = None, heatBlock = none, strength = False, timeVsDistance = time\<rparr>"

definition unparseable :: PlanInputs where
  "unparseable = scenario\<lparr>raceDate := Some ''next spring''\<rparr>"

section \<open>What the loop pushes\<close>

text \<open>
  The notions the proofs and the statements use. \<open>weeksRun tw\<close> is the number of
  passes of the loop under the bound \<open>tw\<close>; \<open>weekRows\<close> lists the rows the body
  pushes in week \<open>w\<close>, in the order of the pushes; \<open>assembled\<close> is the array the loop
  leaves to the sorter.
\<close>

definition weeksRun :: "number \<Rightarrow> nat" where
  "weeksRun tw = (case tw of NaN \<Rightarrow> 0 | Num n \<Rightarrow> nat \<lceil>n\<rceil>)"

definition rowOn :: "runtime \<Rightarrow> int \<Rightarrow> nat \<Rightarrow> int \<Rightarrow> string \<Rightarrow> PlanRow" where
  "rowOn rt today w k s = \<lparr>date = dateFormat rt (today + 7 * int w + k), session = s\<rparr>"

definition heatWeek :: "PlanInputs \<Rightarrow> number \<Rightarrow> nat \<Rightarrow> bool" where
  "heatWeek inputs tw w =
     (planType inputs = race \<and>
      (heatBlock inputs = monoblock \<and> js_ge (Num (of_nat w)) (js_sub tw (Num 2))
       \<or> heatBlock inputs = biphasic \<and> (w < 2 \<or> js_ge (Num (of_nat w)) (js_sub tw (Num 2)))))"

definition weekRows :: "runtime \<Rightarrow> int \<Rightarrow> PlanInputs \<Rightarrow> number \<Rightarrow> nat \<Rightarrow> PlanRow list" where
  "weekRows rt today inputs tw w =
     [rowOn rt today w 6 (longRunSession (longSeed inputs + w * 10)),
      rowOn rt today w 2
        (if courseProfile inputs = flat \<or> w mod 2 \<noteq> 0 then thresholdSession
         else uphillTempoSession)]
     @ (if w mod 4 \<noteq> 3 then [rowOn rt today w 4 vo2Session] else [])
     @ (if heatWeek inputs tw w then [rowOn rt today w 1 hwiSession] else [])
     @ (if planType inputs = maintenance_plus \<and> w mod 2 = 1 \<and> w mod 4 \<noteq> 3
        then [rowOn rt today w 5 additionalVo2Session] else [])"

definition assembled :: "runtime \<Rightarrow> int \<Rightarrow> PlanInputs \<Rightarrow> PlanRow list" where
  "assembled rt today inputs =
     concat (map (weekRows rt today inputs (totalWeeks rt today inputs))
       [0 ..< weeksRun (totalWeeks rt today inputs)])"

text \<open>The display forms of the seven days of week \<open>w\<close>.\<close>

definition weekDates :: "runtime \<Rightarrow> int \<Rightarrow> nat \<Rightarrow> string set" where
  "weekDates rt today w = dateFormat rt ` {today + 7 * int w ..< today + 7 * int w + 7}"

text \<open>The day the sorter reads from a row, and the fact that the runtime reads the
  display form of a day back as that day.\<close>

definition rowDay :: "runtime \<Rightarrow> PlanRow \<Rightarrow> int" where
  "rowDay rt r = (case dateParse rt (date r) of Day d \<Rightarrow> d | Invalid \<Rightarrow> 0)"

definition readsBack :: "runtime \<Rightarrow> int \<Rightarrow> bool" where
  "readsBack rt d \<longleftrightarrow> dateParse rt (dateFormat rt d) = Day d"

section \<open>The loop and the sorter, characterised\<close>

subsection \<open>The rows of the plan\<close>

lemma digitsOf_small: "n < 10 \<Longrightarrow> digitsOf n = [digitChar n]"
  by (subst digitsOf.simps) simp

lemma digitsOf_large:
  "\<not> n < 10 \<Longrightarrow> digitsOf n = digitsOf (n div 10) @ [digitChar (n mod 10)]"
  by (subst digitsOf.simps) simp

lemma pushRow_Day: "pushRow rt rows (Day d) s = Inr (rows @ [\<lparr>date = dateFormat rt d, session = s\<rparr>])"
  by (simp add: pushRow_def thenE_def)

lemma thenE_Inr: "thenE (Inr x) f = f x"
  by (simp add: thenE_def)

lemma weekBody_rows:
  "weekBody rt today inputs tw w rows = Inr (rows @ weekRows rt today inputs tw w)"
  by (cases "heatBlock inputs")
     (simp_all add: weekBody_def weekRows_def rowOn_def heatWeek_def Let_def pushRow_Day thenE_Inr
       algebra_simps)

lemma weeksRun_Num [simp]: "weeksRun (Num (of_nat n)) = n"
  by (simp add: weeksRun_def)

lemma weeksRun_NaN [simp]: "weeksRun NaN = 0"
  by (simp add: weeksRun_def)

lemma js_lt_weeksRun: "js_lt (Num (of_nat w)) tw \<longleftrightarrow> w < weeksRun tw"
proof (cases tw)
  case NaN
  then show ?thesis by (simp add: weeksRun_def)
next
  case (Num n)
  have "of_nat w < n \<longleftrightarrow> int w < \<lceil>n\<rceil>"
    by (simp add: less_ceiling_iff)
  then show ?thesis using Num by (simp add: weeksRun_def zless_nat_eq_int_zless)
qed

lemma weekLoop_rows:
  "weekLoop rt today inputs tw w rows =
     Inr (rows @ concat (map (weekRows rt today inputs tw) [w ..< weeksRun tw]))"
proof (induction rt today inputs tw w rows rule: weekLoop.induct)
  case (1 rt today inputs tw w rows)
  show ?case
  proof (cases "js_lt (Num (of_nat w)) tw")
    case True
    then have lt: "w < weeksRun tw" by (simp add: js_lt_weeksRun)
    have "weekLoop rt today inputs tw w rows
        = weekLoop rt today inputs tw (w + 1) (rows @ weekRows rt today inputs tw w)"
      using True by (subst weekLoop.simps) (simp add: weekBody_rows)
    also have "\<dots> = Inr ((rows @ weekRows rt today inputs tw w)
        @ concat (map (weekRows rt today inputs tw) [w + 1 ..< weeksRun tw]))"
      using "1.IH" [OF True weekBody_rows] .
    finally show ?thesis using lt by (simp add: upt_conv_Cons)
  next
    case False
    then have "\<not> w < weeksRun tw" by (simp add: js_lt_weeksRun)
    then show ?thesis using False by (subst weekLoop.simps) simp
  qed
qed

lemma generatePlan_sorted_assembled:
  "generatePlan rt today inputs = Inr (Array_sort (compareRows rt) (assembled rt today inputs))"
  by (simp add: generatePlan_def Let_def weekLoop_rows thenE_Inr assembled_def)

lemma mset_insertBy: "mset (insertBy cmp x xs) = add_mset x (mset xs)"
  by (induction xs) auto

lemma mset_Array_sort: "mset (Array_sort cmp xs) = mset xs"
  by (induction xs) (auto simp: mset_insertBy)

subsection \<open>The rows of one week\<close>

lemma weekRows_dates:
  assumes "r \<in> set (weekRows rt today inputs tw w)"
  shows "\<exists>k. 0 \<le> k \<and> k < 7 \<and> date r = dateFormat rt (today + 7 * int w + k)"
proof -
  have "date r \<in> (\<lambda>k. dateFormat rt (today + 7 * int w + k)) ` {1, 2, 4, 5, 6}"
    using assms by (auto simp: weekRows_def rowOn_def split: if_splits)
  then obtain k where "k \<in> {1, 2, 4, 5, 6}" and "date r = dateFormat rt (today + 7 * int w + k)"
    by blast
  then show ?thesis by (intro exI [of _ k]) auto
qed

lemma weekRows_in_week:
  assumes "r \<in> set (weekRows rt today inputs tw w)"
  shows "date r \<in> weekDates rt today w"
  using weekRows_dates [OF assms] by (auto simp: weekDates_def)

lemma weekRows_other_week:
  assumes inj: "inj_on (dateFormat rt) {today ..< today + 7 * int n}"
    and w: "w < n" and w': "w' < n" and ne: "w' \<noteq> w"
    and r: "r \<in> set (weekRows rt today inputs tw w')"
  shows "date r \<notin> weekDates rt today w"
proof
  assume "date r \<in> weekDates rt today w"
  then obtain x where x: "today + 7 * int w \<le> x" "x < today + 7 * int w + 7"
    and dx: "date r = dateFormat rt x"
    by (auto simp: weekDates_def)
  obtain k where k: "0 \<le> k" "k < 7" and dk: "date r = dateFormat rt (today + 7 * int w' + k)"
    using weekRows_dates [OF r] by blast
  have "x \<in> {today ..< today + 7 * int n}" using x w by auto
  moreover have "today + 7 * int w' + k \<in> {today ..< today + 7 * int n}" using k w' by auto
  ultimately have "x = today + 7 * int w' + k"
    using inj dx dk by (auto dest: inj_onD)
  then show False using x k ne by arith
qed

lemma concat_map_single:
  assumes "w < n" and "\<And>v. v < n \<Longrightarrow> v \<noteq> w \<Longrightarrow> f v = []"
  shows "concat (map f [0..<n]) = f w"
proof -
  have split: "[0..<n] = [0..<w] @ w # [Suc w..<n]"
    using assms(1) by (metis less_imp_add_positive upt_add_eq_append upt_conv_Cons zero_le le_add1 less_eq_nat.simps(1) add.commute)
  have "\<forall>v\<in>set [0..<w]. f v = []" using assms by auto
  then have a: "concat (map f [0..<w]) = []" by simp
  have "\<forall>v\<in>set [Suc w..<n]. f v = []" using assms by auto
  then have b: "concat (map f [Suc w..<n]) = []" by simp
  show ?thesis by (simp add: split a b)
qed

lemma assembled_week_filter:
  assumes inj: "inj_on (dateFormat rt) {today ..< today + 7 * int n}" and w: "w < n"
  shows "filter (\<lambda>r. date r \<in> weekDates rt today w \<and> Q r)
           (concat (map (weekRows rt today inputs tw) [0..<n]))
         = filter Q (weekRows rt today inputs tw w)"
proof -
  let ?P = "\<lambda>r. date r \<in> weekDates rt today w \<and> Q r"
  let ?f = "\<lambda>v. filter ?P (weekRows rt today inputs tw v)"
  have other: "?f v = []" if "v < n" "v \<noteq> w" for v
    using weekRows_other_week [OF inj w that] by (auto simp: filter_empty_conv)
  have "filter ?P (concat (map (weekRows rt today inputs tw) [0..<n])) = concat (map ?f [0..<n])"
    by (simp add: filter_concat comp_def)
  also have "\<dots> = ?f w" using w other by (rule concat_map_single)
  also have "\<dots> = filter Q (weekRows rt today inputs tw w)"
    by (rule filter_cong) (auto dest: weekRows_in_week)
  finally show ?thesis .
qed

lemma filter_same_mset:
  assumes "mset xs = mset ys" and "length (filter P ys) \<le> 1"
  shows "filter P xs = filter P ys"
proof -
  have m: "mset (filter P xs) = mset (filter P ys)"
    using assms(1) by (metis mset_filter)
  show ?thesis
  proof (cases "filter P ys")
    case Nil
    then show ?thesis using m by simp
  next
    case (Cons y zs)
    then have ys: "filter P ys = [y]" using assms(2) by simp
    have "mset (filter P xs) = mset [y]" using m by (simp only: ys)
    then have "mset (filter P xs) = {#y#}" by (simp only: mset.simps)
    then have "filter P xs = [y]" by (simp only: mset_single_iff)
    then show ?thesis by (simp only: ys)
  qed
qed

lemma plan_week_filter:
  assumes gen: "generatePlan rt today inputs = Inr rows"
    and tw: "totalWeeks rt today inputs = Num (of_nat n)"
    and inj: "inj_on (dateFormat rt) {today ..< today + 7 * int n}"
    and w: "w < n"
    and one: "length (filter Q (weekRows rt today inputs (Num (of_nat n)) w)) \<le> 1"
  shows "filter (\<lambda>r. date r \<in> weekDates rt today w \<and> Q r) rows
         = filter Q (weekRows rt today inputs (Num (of_nat n)) w)"
proof -
  let ?all = "concat (map (weekRows rt today inputs (Num (of_nat n))) [0..<n])"
  have rows: "rows = Array_sort (compareRows rt) ?all"
    using gen by (simp add: generatePlan_sorted_assembled assembled_def tw)
  have f: "filter (\<lambda>r. date r \<in> weekDates rt today w \<and> Q r) ?all
         = filter Q (weekRows rt today inputs (Num (of_nat n)) w)"
    by (rule assembled_week_filter [OF inj w])
  have "filter (\<lambda>r. date r \<in> weekDates rt today w \<and> Q r) rows
      = filter (\<lambda>r. date r \<in> weekDates rt today w \<and> Q r) ?all"
  proof (rule filter_same_mset)
    show "mset rows = mset ?all" by (simp add: rows mset_Array_sort)
    show "length (filter (\<lambda>r. date r \<in> weekDates rt today w \<and> Q r) ?all) \<le> 1"
      using one by (simp only: f)
  qed
  then show ?thesis using f by simp
qed

lemma plan_rows_set:
  assumes gen: "generatePlan rt today inputs = Inr rows"
    and tw: "totalWeeks rt today inputs = Num (of_nat n)"
  shows "set rows = (\<Union>w\<in>{..<n}. set (weekRows rt today inputs (Num (of_nat n)) w))"
proof -
  have "rows = Array_sort (compareRows rt)
      (concat (map (weekRows rt today inputs (Num (of_nat n))) [0..<n]))"
    using gen by (simp add: generatePlan_sorted_assembled assembled_def tw)
  then have "set rows = set (concat (map (weekRows rt today inputs (Num (of_nat n))) [0..<n]))"
    by (metis mset_Array_sort set_mset_mset)
  then show ?thesis by (auto simp: atLeast0LessThan)
qed

lemma plan_row_days:
  assumes gen: "generatePlan rt today inputs = Inr rows"
    and tw: "totalWeeks rt today inputs = Num (of_nat n)"
    and r: "r \<in> set rows"
  shows "\<exists>d\<in>{today ..< today + 7 * int n}. date r = dateFormat rt d"
proof -
  obtain w where w: "w < n" and rw: "r \<in> set (weekRows rt today inputs (Num (of_nat n)) w)"
    using r unfolding plan_rows_set [OF gen tw] by blast
  obtain k where k: "0 \<le> k" "k < 7" "date r = dateFormat rt (today + 7 * int w + k)"
    using weekRows_dates [OF rw] by blast
  have "today + 7 * int w + k \<in> {today ..< today + 7 * int n}" using k w by auto
  then show ?thesis using k by blast
qed

lemma plan_rows_in_weeks:
  assumes gen: "generatePlan rt today inputs = Inr rows"
    and tw: "totalWeeks rt today inputs = Num (of_nat n)"
  shows "\<forall>r\<in>set rows. \<exists>v<n. date r \<in> weekDates rt today v"
  unfolding plan_rows_set [OF gen tw] using weekRows_in_week by fastforce

lemmas session_defs = longRunSession_def thresholdSession_def uphillTempoSession_def
  vo2Session_def hwiSession_def additionalVo2Session_def

lemma heatWeek_nat:
  "heatWeek inputs (Num (of_nat n)) w \<longleftrightarrow>
     planType inputs = race \<and>
     (heatBlock inputs = monoblock \<and> n \<le> w + 2
      \<or> heatBlock inputs = biphasic \<and> (w < 2 \<or> n \<le> w + 2))"
proof -
  have "(of_nat n - 2 \<le> (of_nat w :: rat)) \<longleftrightarrow> n \<le> w + 2"
  proof -
    have "(of_nat n - 2 \<le> (of_nat w :: rat)) \<longleftrightarrow> (of_nat n :: rat) \<le> of_nat (w + 2)"
      by (simp add: algebra_simps)
    then show ?thesis by (simp only: of_nat_le_iff)
  qed
  then show ?thesis by (auto simp: heatWeek_def)
qed

subsection \<open>The sorter on readable dates\<close>

lemma compareRows_valid:
  assumes "dateParse rt (date x) = Day a" and "dateParse rt (date y) = Day b"
  shows "js_gt (compareRows rt x y) (Num 0) \<longleftrightarrow> b < a"
proof -
  have "(0 < (of_int (a * msPerDay) :: rat) - of_int (b * msPerDay)) \<longleftrightarrow> b * msPerDay < a * msPerDay"
    by (simp only: less_diff_eq add_0 of_int_less_iff)
  also have "\<dots> \<longleftrightarrow> b < a" by (simp add: msPerDay_def)
  finally show ?thesis using assms by (simp add: compareRows_def)
qed

lemma insertBy_insort_key:
  assumes "\<exists>a. dateParse rt (date x) = Day a"
    and "\<forall>y\<in>set ys. \<exists>b. dateParse rt (date y) = Day b"
  shows "insertBy (compareRows rt) x ys = insort_key (rowDay rt) x ys"
  using assms(2)
proof (induction ys)
  case Nil
  then show ?case by simp
next
  case (Cons y ys)
  obtain a where a: "dateParse rt (date x) = Day a" using assms(1) by blast
  obtain b where b: "dateParse rt (date y) = Day b" using Cons.prems by auto
  have "js_gt (compareRows rt x y) (Num 0) \<longleftrightarrow> \<not> rowDay rt x \<le> rowDay rt y"
    using compareRows_valid [OF a b] by (simp add: rowDay_def a b not_le)
  then show ?case using Cons by simp
qed

lemma Array_sort_sort_key:
  assumes "\<forall>x\<in>set xs. \<exists>a. dateParse rt (date x) = Day a"
  shows "Array_sort (compareRows rt) xs = sort_key (rowDay rt) xs"
  using assms
proof (induction xs)
  case Nil
  then show ?case by simp
next
  case (Cons x xs)
  then have IH: "Array_sort (compareRows rt) xs = sort_key (rowDay rt) xs" by simp
  have "insertBy (compareRows rt) x (sort_key (rowDay rt) xs)
      = insort_key (rowDay rt) x (sort_key (rowDay rt) xs)"
    using Cons.prems by (intro insertBy_insort_key) auto
  then show ?case by (simp add: IH)
qed

lemma inj_on_readsBack:
  assumes "\<forall>d\<in>A. dateParse rt (dateFormat rt d) = Day d"
  shows "inj_on (dateFormat rt) A"
proof (rule inj_onI)
  fix x y assume "x \<in> A" "y \<in> A" "dateFormat rt x = dateFormat rt y"
  then have "Day x = Day y" using assms by metis
  then show "x = y" by simp
qed

lemma totalWeeks_unparseable:
  assumes "planType inputs = race" and "raceDate inputs = Some s" and "s \<noteq> []"
    and "dateParse rt s = Invalid"
  shows "totalWeeks rt today inputs = NaN"
  using assms by (simp add: totalWeeks_def raceDateOf_def)

lemma generatePlan_NaN:
  assumes "totalWeeks rt today inputs = NaN"
  shows "generatePlan rt today inputs = Inr []"
proof -
  have "weekLoop rt today inputs NaN 0 [] = Inr []"
    by (subst weekLoop.simps) simp
  then show ?thesis
    by (simp add: generatePlan_def Let_def thenE_def assms)
qed

lemma totalWeeks_not_race:
  "planType i \<noteq> race \<Longrightarrow> totalWeeks rt today i = Num (of_nat 12)"
  by (simp add: totalWeeks_def)

text \<open>The week count is \<^verbatim>\<open>NaN\<close> or a whole number of at least 4 weeks.\<close>

lemma totalWeeks_shape:
  "totalWeeks rt today inputs = NaN
   \<or> (\<exists>n\<ge>4. totalWeeks rt today inputs = Num (of_nat n))"
proof (cases "planType inputs = race")
  case False
  then have "totalWeeks rt today inputs = Num (of_nat 12)" by (rule totalWeeks_not_race)
  then show ?thesis by (intro disjI2 exI [of _ 12]) simp
next
  case True
  show ?thesis
  proof (cases "raceDateOf rt today inputs")
    case Invalid
    then show ?thesis using True by (simp add: totalWeeks_def)
  next
    case (Day r)
    define k where "k = max 4 \<lceil>of_int (r - today) / (7 :: rat)\<rceil>"
    have k: "4 \<le> k" unfolding k_def by (rule max.cobounded1)
    have "totalWeeks rt today inputs = Num (of_int k)"
      using True Day unfolding k_def by (simp add: totalWeeks_def Let_def max_def)
    moreover have "(of_nat (nat k) :: rat) = of_int k"
      using k by (intro of_nat_nat) linarith
    ultimately have "totalWeeks rt today inputs = Num (of_nat (nat k))" by (simp only:)
    moreover have "4 \<le> nat k" using k by linarith
    ultimately show ?thesis by blast
  qed
qed

subsection \<open>The reference runtime, evaluated\<close>

lemmas calendar_simps = formatDay_def civilFromDays_def civilOfEra_def civilOfYearOfEra_def
  civilOfDayOfYear_def civilOfMarchMonth_def civilOfMonth_def marchYear_def daysFromCivil_def
  weekdayNames_def monthNames_def padZeros_def digitsOf_small digitsOf_large digitChar_def
  parseDay_def readNat_def civilDate_def utcRuntime_def

text \<open>The twelve weeks from 2 June 2025 on, day by day.\<close>

lemma utc_reads_back_list: "\<forall>d\<in>set [20241 .. 20324]. readsBack utcRuntime d"
  apply simp
  apply (simp add: readsBack_def calendar_simps)
  done

lemma utc_reads_back:
  assumes "n \<le> 12"
  shows "\<forall>d\<in>{20241 ..< 20241 + 7 * int n}. dateParse utcRuntime (dateFormat utcRuntime d) = Day d"
proof
  fix d assume "d \<in> {20241 ..< 20241 + 7 * int n}"
  then have "d \<in> {20241 .. 20324}" using assms by auto
  then have "d \<in> set [20241 .. 20324]" by (simp only: set_upto)
  then have "readsBack utcRuntime d" using utc_reads_back_list by blast
  then show "dateParse utcRuntime (dateFormat utcRuntime d) = Day d"
    by (simp only: readsBack_def)
qed

lemma utc_inj_on:
  assumes "n \<le> 12"
  shows "inj_on (dateFormat utcRuntime) {20241 ..< 20241 + 7 * int n}"
  using utc_reads_back [OF assms] by (rule inj_on_readsBack)

lemma raceDay_utc: "parseDay ''2025-06-30'' = Day 20269"
  by (simp add: calendar_simps)

lemma totalWeeks_scenario:
  "planType i = race \<Longrightarrow> raceDate i = Some ''2025-06-30''
     \<Longrightarrow> totalWeeks utcRuntime 20241 i = Num (of_nat 4)"
  by (simp add: totalWeeks_def raceDateOf_def utcRuntime_def raceDay_utc)

subsection \<open>The plan of the scenario\<close>

text \<open>The array the loop leaves for the scenario, week by week in the order of the
  pushes, and the plan the generator returns for it.\<close>

lemma scenario_assembled:
  "assembled utcRuntime 20241 scenario =
     [\<lparr>date = ''Sun, Jun 8 2025'', session = longRunSession 90\<rparr>,
      \<lparr>date = ''Wed, Jun 4 2025'', session = thresholdSession\<rparr>,
      \<lparr>date = ''Fri, Jun 6 2025'', session = vo2Session\<rparr>,
      \<lparr>date = ''Sun, Jun 15 2025'', session = longRunSession 100\<rparr>,
      \<lparr>date = ''Wed, Jun 11 2025'', session = thresholdSession\<rparr>,
      \<lparr>date = ''Fri, Jun 13 2025'', session = vo2Session\<rparr>,
      \<lparr>date = ''Sun, Jun 22 2025'', session = longRunSession 110\<rparr>,
      \<lparr>date = ''Wed, Jun 18 2025'', session = thresholdSession\<rparr>,
      \<lparr>date = ''Fri, Jun 20 2025'', session = vo2Session\<rparr>,
      \<lparr>date = ''Sun, Jun 29 2025'', session = longRunSession 120\<rparr>,
      \<lparr>date = ''Wed, Jun 25 2025'', session = thresholdSession\<rparr>]"
proof -
  have tw: "totalWeeks utcRuntime 20241 scenario = Num (of_nat 4)"
    by (rule totalWeeks_scenario) (simp_all add: scenario_def)
  have up: "[0..<4] = [0, 1, 2, 3]" by (simp add: upt_rec)
  have "assembled utcRuntime 20241 scenario
      = concat (map (weekRows utcRuntime 20241 scenario (Num (of_nat 4))) [0, 1, 2, 3])"
    unfolding assembled_def tw weeksRun_Num up ..
  also have "\<dots> = [rowOn utcRuntime 20241 0 6 (longRunSession 90),
      rowOn utcRuntime 20241 0 2 thresholdSession,
      rowOn utcRuntime 20241 0 4 vo2Session,
      rowOn utcRuntime 20241 1 6 (longRunSession 100),
      rowOn utcRuntime 20241 1 2 thresholdSession,
      rowOn utcRuntime 20241 1 4 vo2Session,
      rowOn utcRuntime 20241 2 6 (longRunSession 110),
      rowOn utcRuntime 20241 2 2 thresholdSession,
      rowOn utcRuntime 20241 2 4 vo2Session,
      rowOn utcRuntime 20241 3 6 (longRunSession 120),
      rowOn utcRuntime 20241 3 2 thresholdSession]"
    by (simp add: weekRows_def heatWeek_def longSeed_def scenario_def)
  also have "\<dots> = [\<lparr>date = ''Sun, Jun 8 2025'', session = longRunSession 90\<rparr>,
      \<lparr>date = ''Wed, Jun 4 2025'', session = thresholdSession\<rparr>,
      \<lparr>date = ''Fri, Jun 6 2025'', session = vo2Session\<rparr>,
      \<lparr>date = ''Sun, Jun 15 2025'', session = longRunSession 100\<rparr>,
      \<lparr>date = ''Wed, Jun 11 2025'', session = thresholdSession\<rparr>,
      \<lparr>date = ''Fri, Jun 13 2025'', session = vo2Session\<rparr>,
      \<lparr>date = ''Sun, Jun 22 2025'', session = longRunSession 110\<rparr>,
      \<lparr>date = ''Wed, Jun 18 2025'', session = thresholdSession\<rparr>,
      \<lparr>date = ''Fri, Jun 20 2025'', session = vo2Session\<rparr>,
      \<lparr>date = ''Sun, Jun 29 2025'', session = longRunSession 120\<rparr>,
      \<lparr>date = ''Wed, Jun 25 2025'', session = thresholdSession\<rparr>]"
    by (simp add: rowOn_def calendar_simps)
  finally show ?thesis .
qed

lemma day_of_display:
  "parseDay ''Sun, Jun 8 2025'' = Day 20247" "parseDay ''Wed, Jun 4 2025'' = Day 20243"
  "parseDay ''Fri, Jun 6 2025'' = Day 20245" "parseDay ''Sun, Jun 15 2025'' = Day 20254"
  "parseDay ''Wed, Jun 11 2025'' = Day 20250" "parseDay ''Fri, Jun 13 2025'' = Day 20252"
  "parseDay ''Sun, Jun 22 2025'' = Day 20261" "parseDay ''Wed, Jun 18 2025'' = Day 20257"
  "parseDay ''Fri, Jun 20 2025'' = Day 20259" "parseDay ''Sun, Jun 29 2025'' = Day 20268"
  "parseDay ''Wed, Jun 25 2025'' = Day 20264"
  by (simp_all add: calendar_simps)

lemma scenario_plan:
  "generatePlan utcRuntime 20241 scenario = Inr
     [\<lparr>date = ''Wed, Jun 4 2025'', session = thresholdSession\<rparr>,
      \<lparr>date = ''Fri, Jun 6 2025'', session = vo2Session\<rparr>,
      \<lparr>date = ''Sun, Jun 8 2025'', session = longRunSession 90\<rparr>,
      \<lparr>date = ''Wed, Jun 11 2025'', session = thresholdSession\<rparr>,
      \<lparr>date = ''Fri, Jun 13 2025'', session = vo2Session\<rparr>,
      \<lparr>date = ''Sun, Jun 15 2025'', session = longRunSession 100\<rparr>,
      \<lparr>date = ''Wed, Jun 18 2025'', session = thresholdSession\<rparr>,
      \<lparr>date = ''Fri, Jun 20 2025'', session = vo2Session\<rparr>,
      \<lparr>date = ''Sun, Jun 22 2025'', session = longRunSession 110\<rparr>,
      \<lparr>date = ''Wed, Jun 25 2025'', session = thresholdSession\<rparr>,
      \<lparr>date = ''Sun, Jun 29 2025'', session = longRunSession 120\<rparr>]"
  unfolding generatePlan_sorted_assembled scenario_assembled
  by (simp add: compareRows_def utcRuntime_def day_of_display msPerDay_def)

section \<open>The claims\<close>

subsection \<open>Plan length\<close>

text \<open>
  Claim C1. A maintenance or maintenance-plus plan has 12 weeks whatever the race date
  is. A race plan whose race date is read as day \<open>r\<close> has
  \<open>max 4 \<lceil>(r - today) / 7\<rceil>\<close> weeks: 4 weeks when the race is 28 days ahead, 10 weeks when
  it is 70 days ahead, and 4 weeks when it lies in the past. A missing (or empty) race
  date counts as today and gives 4 weeks. In the last two cases the generator returns
  a plan and raises nothing.
\<close>

theorem plan_length:
  "(planType inputs = maintenance \<or> planType inputs = maintenance_plus \<longrightarrow>
      totalWeeks rt today inputs = Num 12)
   \<and> (planType inputs = race \<and> raceDate inputs = Some s \<and> s \<noteq> [] \<and> dateParse rt s = Day r \<longrightarrow>
        totalWeeks rt today inputs = Num (of_int (max 4 \<lceil>of_int (r - today) / (7 :: rat)\<rceil>))
        \<and> (r = today + 28 \<longrightarrow> totalWeeks rt today inputs = Num 4)
        \<and> (r = today + 70 \<longrightarrow> totalWeeks rt today inputs = Num 10)
        \<and> (r \<le> today \<longrightarrow> totalWeeks rt today inputs = Num 4
              \<and> (\<exists>rows. generatePlan rt today inputs = Inr rows)))
   \<and> (planType inputs = race \<and> (raceDate inputs = None \<or> raceDate inputs = Some []) \<longrightarrow>
        totalWeeks rt today inputs = Num 4
        \<and> (\<exists>rows. generatePlan rt today inputs = Inr rows))"
proof -
  have weeks: "totalWeeks rt today inputs = Num (of_int (max 4 \<lceil>of_int (x - today) / (7 :: rat)\<rceil>))"
    if "planType inputs = race" "raceDateOf rt today inputs = Day x" for x
    using that by (simp add: totalWeeks_def Let_def max_def)
  have past: "max 4 \<lceil>of_int (x - today) / (7 :: rat)\<rceil> = 4" if "x \<le> today" for x
  proof -
    have "of_int (x - today) / (7 :: rat) \<le> 0" using that by (simp add: divide_le_0_iff)
    then have "\<lceil>of_int (x - today) / (7 :: rat)\<rceil> \<le> 0" by (simp add: ceiling_le_iff)
    then show ?thesis by simp
  qed
  have parsed: "raceDateOf rt today inputs = dateParse rt s"
    if "raceDate inputs = Some s" "s \<noteq> []"
    using that by (simp add: raceDateOf_def)
  have missing: "raceDateOf rt today inputs = Day today"
    if "raceDate inputs = None \<or> raceDate inputs = Some []"
    using that by (auto simp: raceDateOf_def)
  have returns: "\<exists>rows. generatePlan rt today inputs = Inr rows"
    by (simp add: generatePlan_sorted_assembled)
  have a: "totalWeeks rt today inputs = Num 12"
    if "planType inputs = maintenance \<or> planType inputs = maintenance_plus"
    using that by (auto simp: totalWeeks_def)
  have b: "totalWeeks rt today inputs = Num (of_int (max 4 \<lceil>of_int (r - today) / (7 :: rat)\<rceil>))
        \<and> (r = today + 28 \<longrightarrow> totalWeeks rt today inputs = Num 4)
        \<and> (r = today + 70 \<longrightarrow> totalWeeks rt today inputs = Num 10)
        \<and> (r \<le> today \<longrightarrow> totalWeeks rt today inputs = Num 4
              \<and> (\<exists>rows. generatePlan rt today inputs = Inr rows))"
    if "planType inputs = race \<and> raceDate inputs = Some s \<and> s \<noteq> [] \<and> dateParse rt s = Day r"
  proof -
    have w: "totalWeeks rt today inputs = Num (of_int (max 4 \<lceil>of_int (r - today) / (7 :: rat)\<rceil>))"
      using that weeks [of r] parsed by simp
    show ?thesis using w past [of r] returns by auto
  qed
  have c: "totalWeeks rt today inputs = Num 4 \<and> (\<exists>rows. generatePlan rt today inputs = Inr rows)"
    if "planType inputs = race \<and> (raceDate inputs = None \<or> raceDate inputs = Some [])"
    using that weeks [of today] missing returns by simp
  show ?thesis using a b c by blast
qed

theorem plan_length_witness:
  "totalWeeks utcRuntime 20241 scenario = Num 4
   \<and> totalWeeks utcRuntime 20241 (scenario\<lparr>raceDate := Some ''2025-08-11''\<rparr>) = Num 10
   \<and> totalWeeks utcRuntime 20241 (scenario\<lparr>raceDate := Some ''2025-01-01''\<rparr>) = Num 4
   \<and> totalWeeks utcRuntime 20241 (scenario\<lparr>raceDate := None\<rparr>) = Num 4
   \<and> totalWeeks utcRuntime 20241 (scenario\<lparr>planType := maintenance_plus\<rparr>) = Num 12"
proof -
  have d28: "dateParse utcRuntime ''2025-06-30'' = Day (20241 + 28)"
    by (simp add: calendar_simps)
  have d70: "dateParse utcRuntime ''2025-08-11'' = Day (20241 + 70)"
    by (simp add: calendar_simps)
  have past: "dateParse utcRuntime ''2025-01-01'' = Day 20089"
    by (simp add: calendar_simps)
  show ?thesis
    using plan_length [of scenario utcRuntime 20241 "''2025-06-30''" "20241 + 28"]
      plan_length [of "scenario\<lparr>raceDate := Some ''2025-08-11''\<rparr>" utcRuntime 20241
        "''2025-08-11''" "20241 + 70"]
      plan_length [of "scenario\<lparr>raceDate := Some ''2025-01-01''\<rparr>" utcRuntime 20241
        "''2025-01-01''" 20089]
      plan_length [of "scenario\<lparr>raceDate := None\<rparr>" utcRuntime 20241]
      plan_length [of "scenario\<lparr>planType := maintenance_plus\<rparr>" utcRuntime 20241]
      d28 d70 past
    by (simp add: scenario_def)
qed

subsection \<open>An unparseable race date\<close>

text \<open>
  Claim C2, as the generator has it. For a race plan whose race date is present and
  not parseable the generator surfaces no error: it returns a list of rows to its
  caller. (The loop does not run on such an input, so no date is formatted.)
\<close>

theorem unparseable_date_no_error:
  assumes "planType inputs = race" and "raceDate inputs = Some s" and "s \<noteq> []"
    and "dateParse rt s = Invalid"
  shows "(\<exists>rows. generatePlan rt today inputs = Inr rows)
       \<and> (\<forall>e. generatePlan rt today inputs \<noteq> Inl e)"
proof -
  have "totalWeeks rt today inputs = NaN"
    using assms by (rule totalWeeks_unparseable)
  then have "generatePlan rt today inputs = Inr []"
    by (rule generatePlan_NaN)
  then show ?thesis by simp
qed

theorem unparseable_date_no_error_witness:
  "(\<exists>rows. generatePlan utcRuntime 20241 unparseable = Inr rows)
   \<and> (\<forall>e. generatePlan utcRuntime 20241 unparseable \<noteq> Inl e)"
proof (rule unparseable_date_no_error)
  show "planType unparseable = race" by (simp add: unparseable_def scenario_def)
  show "raceDate unparseable = Some ''next spring''" by (simp add: unparseable_def)
  show "''next spring'' \<noteq> []" by simp
  show "dateParse utcRuntime ''next spring'' = Invalid" by (simp add: calendar_simps)
qed

text \<open>
  Claim C2 as stated asks for an error on such a date. On the race plan with race date
  \<^verbatim>\<open>next spring\<close>, which the reference runtime reads as the Invalid Date, the generator
  returns normally.
\<close>

theorem no_invalid_date_error:
  "planType unparseable = race \<and> raceDate unparseable = Some ''next spring''
   \<and> dateParse utcRuntime ''next spring'' = Invalid
   \<and> generatePlan utcRuntime 20241 unparseable = Inr []"
proof -
  have inv: "dateParse utcRuntime ''next spring'' = Invalid"
    by (simp add: calendar_simps)
  have "totalWeeks utcRuntime 20241 unparseable = NaN"
    by (rule totalWeeks_unparseable [where s = "''next spring''"])
      (simp_all add: unparseable_def scenario_def inv)
  then show ?thesis
    by (simp add: generatePlan_NaN inv) (simp add: unparseable_def scenario_def)
qed

text \<open>
  Claim C10. When the plan is a race plan and the race date is present but does not
  parse, the week count is \<^verbatim>\<open>NaN\<close>, the week loop runs zero times and pushes no row,
  and the generator returns the empty list without an error.
\<close>

theorem unparseable_date_empty_plan:
  assumes "planType inputs = race" and "raceDate inputs = Some s" and "s \<noteq> []"
    and "dateParse rt s = Invalid"
  shows "totalWeeks rt today inputs = NaN
       \<and> weekLoop rt today inputs (totalWeeks rt today inputs) 0 [] = Inr []
       \<and> generatePlan rt today inputs = Inr []"
proof -
  have tw: "totalWeeks rt today inputs = NaN"
    using assms by (rule totalWeeks_unparseable)
  have "weekLoop rt today inputs NaN 0 [] = Inr []"
    by (subst weekLoop.simps) simp
  then show ?thesis
    using generatePlan_NaN [OF tw] by (simp add: tw)
qed

theorem unparseable_date_empty_plan_witness:
  "totalWeeks utcRuntime 20241 unparseable = NaN
   \<and> weekLoop utcRuntime 20241 unparseable (totalWeeks utcRuntime 20241 unparseable) 0 [] = Inr []
   \<and> generatePlan utcRuntime 20241 unparseable = Inr []"
proof (rule unparseable_date_empty_plan)
  show "planType unparseable = race" by (simp add: unparseable_def scenario_def)
  show "raceDate unparseable = Some ''next spring''" by (simp add: unparseable_def)
  show "''next spring'' \<noteq> []" by simp
  show "dateParse utcRuntime ''next spring'' = Invalid" by (simp add: calendar_simps)
qed

text \<open>
  Claim C9 asks for a week count of at least 4 on every input, an unparseable race
  date included. On the race plan with race date \<^verbatim>\<open>next spring\<close> the week count is
  \<^verbatim>\<open>NaN\<close>, which is not at least 4, and the plan has no week at all.
\<close>

theorem week_count_unparseable_date:
  "totalWeeks utcRuntime 20241 unparseable = NaN
   \<and> \<not> js_ge (totalWeeks utcRuntime 20241 unparseable) (Num 4)
   \<and> generatePlan utcRuntime 20241 unparseable = Inr []"
proof -
  have inv: "dateParse utcRuntime ''next spring'' = Invalid"
    by (simp add: calendar_simps)
  have tw: "totalWeeks utcRuntime 20241 unparseable = NaN"
    by (rule totalWeeks_unparseable [where s = "''next spring''"])
      (simp_all add: unparseable_def scenario_def inv)
  show ?thesis using generatePlan_NaN [OF tw] by (simp add: tw)
qed

subsection \<open>The weekly rules\<close>

text \<open>
  The rules below are stated on the returned plan. The rows of week \<open>w\<close> are the rows
  whose date is the display form of one of the seven days of that week
  (\<open>weekDates\<close>); this names the week of a row as long as the days of the plan have
  pairwise different display forms, which is the hypothesis on \<open>dateFormat\<close>. \<open>n\<close> is
  the week count.
\<close>

text \<open>
  Claim C7. In every week \<open>w\<close> of a plan there is exactly one long-run row. It is dated
  Sunday, six days after the week's start \<open>today + 7 w\<close>, and its duration is
  \<open>seed + 10 w\<close> minutes with seed 90 for a race plan and 60 otherwise, so the duration
  grows by 10 minutes from each week to the next, with no taper and no cap. In a race
  plan the long run of week 0 reads \<^verbatim>\<open>Long run - 90 min easy\<close> (with an en dash) on the
  day \<open>today + 6\<close>.
\<close>

theorem long_run_rows:
  assumes "generatePlan rt today inputs = Inr rows"
    and "totalWeeks rt today inputs = Num (of_nat n)"
    and "inj_on (dateFormat rt) {today ..< today + 7 * int n}"
    and "w < n"
  shows "filter (\<lambda>r. date r \<in> weekDates rt today w \<and> (\<exists>m. session r = longRunSession m)) rows
       = [\<lparr>date = dateFormat rt (today + 7 * int w + 6),
           session = longRunSession ((if planType inputs = race then 90 else 60) + 10 * w)\<rparr>]
       \<and> (planType inputs = race \<longrightarrow>
            \<lparr>date = dateFormat rt (today + 6),
             session = ''Long run '' @ enDash @ '' 90 min easy''\<rparr> \<in> set rows)"
proof -
  let ?Q = "\<lambda>r. \<exists>m. session r = longRunSession m"
  have week: "filter ?Q (weekRows rt today inputs (Num (of_nat n)) w)
      = [rowOn rt today w 6 (longRunSession (longSeed inputs + w * 10))]"
    by (auto simp: weekRows_def rowOn_def session_defs)
  have "filter (\<lambda>r. date r \<in> weekDates rt today w \<and> ?Q r) rows
      = filter ?Q (weekRows rt today inputs (Num (of_nat n)) w)"
    using assms by (rule plan_week_filter) (simp add: week)
  then have a: "filter (\<lambda>r. date r \<in> weekDates rt today w \<and> ?Q r) rows
       = [\<lparr>date = dateFormat rt (today + 7 * int w + 6),
           session = longRunSession ((if planType inputs = race then 90 else 60) + 10 * w)\<rparr>]"
    by (simp add: week rowOn_def longSeed_def mult.commute)
  have b: "\<lparr>date = dateFormat rt (today + 6),
             session = ''Long run '' @ enDash @ '' 90 min easy''\<rparr> \<in> set rows"
    if "planType inputs = race"
  proof -
    have "rowOn rt today 0 6 (longRunSession (longSeed inputs + 0 * 10))
        \<in> set (weekRows rt today inputs (Num (of_nat n)) 0)"
      by (simp add: weekRows_def)
    moreover have "0 < n" using assms(4) by simp
    ultimately have "rowOn rt today 0 6 (longRunSession (longSeed inputs + 0 * 10)) \<in> set rows"
      unfolding plan_rows_set [OF assms(1,2)] by blast
    moreover have "longRunSession 90 = ''Long run '' @ enDash @ '' 90 min easy''"
      by (simp add: longRunSession_def digitsOf_small digitsOf_large digitChar_def)
    ultimately show ?thesis using that by (simp add: rowOn_def longSeed_def)
  qed
  show ?thesis using a b by blast
qed

theorem long_run_rows_witness:
  "\<exists>rows. generatePlan utcRuntime 20241 scenario = Inr rows
     \<and> filter (\<lambda>r. date r \<in> weekDates utcRuntime 20241 0
                     \<and> (\<exists>m. session r = longRunSession m)) rows
         = [\<lparr>date = ''Sun, Jun 8 2025'', session = ''Long run '' @ enDash @ '' 90 min easy''\<rparr>]
     \<and> filter (\<lambda>r. date r \<in> weekDates utcRuntime 20241 3
                     \<and> (\<exists>m. session r = longRunSession m)) rows
         = [\<lparr>date = ''Sun, Jun 29 2025'', session = ''Long run '' @ enDash @ '' 120 min easy''\<rparr>]"
proof -
  obtain rows where gen: "generatePlan utcRuntime 20241 scenario = Inr rows"
    by (simp add: generatePlan_sorted_assembled)
  have tw: "totalWeeks utcRuntime 20241 scenario = Num (of_nat 4)"
    by (rule totalWeeks_scenario) (simp_all add: scenario_def)
  have inj: "inj_on (dateFormat utcRuntime) {20241 ..< 20241 + 7 * int 4}"
    by (rule utc_inj_on) simp
  have days: "dateFormat utcRuntime 20247 = ''Sun, Jun 8 2025''"
      "dateFormat utcRuntime 20268 = ''Sun, Jun 29 2025''"
    by (simp_all add: calendar_simps)
  have texts: "longRunSession 90 = ''Long run '' @ enDash @ '' 90 min easy''"
      "longRunSession 120 = ''Long run '' @ enDash @ '' 120 min easy''"
    by (simp_all add: longRunSession_def digitsOf_small digitsOf_large digitChar_def)
  have race: "planType scenario = race" by (simp add: scenario_def)
  show ?thesis
    using gen long_run_rows [OF gen tw inj, of 0] long_run_rows [OF gen tw inj, of 3]
      days texts race
    by simp
qed

text \<open>
  Claim C8. In every week \<open>w\<close> of a plan there is exactly one midweek quality row,
  dated Wednesday (week start + 2 days). On a flat course it is the threshold session
  every week; on any other course (rolling, hilly, ultra) it is the uphill-tempo
  session in even weeks and the threshold session in odd weeks.
\<close>

theorem midweek_rows:
  assumes "generatePlan rt today inputs = Inr rows"
    and "totalWeeks rt today inputs = Num (of_nat n)"
    and "inj_on (dateFormat rt) {today ..< today + 7 * int n}"
    and "w < n"
  shows "filter (\<lambda>r. date r \<in> weekDates rt today w
                     \<and> (session r = thresholdSession \<or> session r = uphillTempoSession)) rows
       = [\<lparr>date = dateFormat rt (today + 7 * int w + 2),
           session = (if courseProfile inputs = flat then thresholdSession
                      else if w mod 2 = 0 then uphillTempoSession else thresholdSession)\<rparr>]"
proof -
  let ?Q = "\<lambda>r. session r = thresholdSession \<or> session r = uphillTempoSession"
  have week: "filter ?Q (weekRows rt today inputs (Num (of_nat n)) w)
      = [rowOn rt today w 2 (if courseProfile inputs = flat \<or> w mod 2 \<noteq> 0 then thresholdSession
         else uphillTempoSession)]"
    by (simp add: weekRows_def rowOn_def session_defs)
  have "filter (\<lambda>r. date r \<in> weekDates rt today w \<and> ?Q r) rows
      = filter ?Q (weekRows rt today inputs (Num (of_nat n)) w)"
    using assms by (rule plan_week_filter) (simp add: week)
  then show ?thesis by (simp add: week rowOn_def)
qed

theorem midweek_rows_witness:
  "\<exists>rows hilly_rows.
     generatePlan utcRuntime 20241 scenario = Inr rows
     \<and> filter (\<lambda>r. date r \<in> weekDates utcRuntime 20241 0
                     \<and> (session r = thresholdSession \<or> session r = uphillTempoSession)) rows
         = [\<lparr>date = ''Wed, Jun 4 2025'', session = ''Threshold 20 min continuous''\<rparr>]
     \<and> generatePlan utcRuntime 20241 (scenario\<lparr>courseProfile := hilly\<rparr>) = Inr hilly_rows
     \<and> filter (\<lambda>r. date r \<in> weekDates utcRuntime 20241 0
                     \<and> (session r = thresholdSession \<or> session r = uphillTempoSession)) hilly_rows
         = [\<lparr>date = ''Wed, Jun 4 2025'', session = uphillTempoSession\<rparr>]
     \<and> filter (\<lambda>r. date r \<in> weekDates utcRuntime 20241 1
                     \<and> (session r = thresholdSession \<or> session r = uphillTempoSession)) hilly_rows
         = [\<lparr>date = ''Wed, Jun 11 2025'', session = ''Threshold 20 min continuous''\<rparr>]"
proof -
  obtain rows where gen: "generatePlan utcRuntime 20241 scenario = Inr rows"
    by (simp add: generatePlan_sorted_assembled)
  obtain hilly_rows
    where gen': "generatePlan utcRuntime 20241 (scenario\<lparr>courseProfile := hilly\<rparr>) = Inr hilly_rows"
    by (simp add: generatePlan_sorted_assembled)
  have tw: "totalWeeks utcRuntime 20241 scenario = Num (of_nat 4)"
    by (rule totalWeeks_scenario) (simp_all add: scenario_def)
  have tw': "totalWeeks utcRuntime 20241 (scenario\<lparr>courseProfile := hilly\<rparr>) = Num (of_nat 4)"
    by (rule totalWeeks_scenario) (simp_all add: scenario_def)
  have inj: "inj_on (dateFormat utcRuntime) {20241 ..< 20241 + 7 * int 4}"
    by (rule utc_inj_on) simp
  have days: "dateFormat utcRuntime 20243 = ''Wed, Jun 4 2025''"
      "dateFormat utcRuntime 20250 = ''Wed, Jun 11 2025''"
    by (simp_all add: calendar_simps)
  have flat: "courseProfile scenario = flat" by (simp add: scenario_def)
  show ?thesis
    using gen gen' midweek_rows [OF gen tw inj, of 0] midweek_rows [OF gen' tw' inj, of 0]
      midweek_rows [OF gen' tw' inj, of 1] days flat
    by (simp add: thresholdSession_def)
qed

text \<open>
  Claim C3. In a deload week (\<open>w mod 4 = 3\<close>) the plan has no VO2max interval row. In
  every other week it has exactly one, dated Friday (week start + 4 days), with the
  fixed VO2max session.
\<close>

theorem vo2_interval_rows:
  assumes "generatePlan rt today inputs = Inr rows"
    and "totalWeeks rt today inputs = Num (of_nat n)"
    and "inj_on (dateFormat rt) {today ..< today + 7 * int n}"
    and "w < n"
  shows "filter (\<lambda>r. date r \<in> weekDates rt today w \<and> session r = vo2Session) rows
       = (if w mod 4 = 3 then []
          else [\<lparr>date = dateFormat rt (today + 7 * int w + 4), session = vo2Session\<rparr>])"
proof -
  have week: "filter (\<lambda>r. session r = vo2Session) (weekRows rt today inputs (Num (of_nat n)) w)
      = (if w mod 4 = 3 then [] else [rowOn rt today w 4 vo2Session])"
    by (simp add: weekRows_def rowOn_def session_defs)
  have "filter (\<lambda>r. date r \<in> weekDates rt today w \<and> session r = vo2Session) rows
      = filter (\<lambda>r. session r = vo2Session) (weekRows rt today inputs (Num (of_nat n)) w)"
    using assms by (rule plan_week_filter) (simp add: week)
  then show ?thesis by (simp add: week rowOn_def)
qed

theorem vo2_interval_rows_witness:
  "\<exists>rows. generatePlan utcRuntime 20241 scenario = Inr rows
     \<and> filter (\<lambda>r. date r \<in> weekDates utcRuntime 20241 0 \<and> session r = vo2Session) rows
         = [\<lparr>date = ''Fri, Jun 6 2025'', session = vo2Session\<rparr>]
     \<and> filter (\<lambda>r. date r \<in> weekDates utcRuntime 20241 3 \<and> session r = vo2Session) rows = []"
proof -
  obtain rows where gen: "generatePlan utcRuntime 20241 scenario = Inr rows"
    by (simp add: generatePlan_sorted_assembled)
  have tw: "totalWeeks utcRuntime 20241 scenario = Num (of_nat 4)"
    by (rule totalWeeks_scenario) (simp_all add: scenario_def)
  have inj: "inj_on (dateFormat utcRuntime) {20241 ..< 20241 + 7 * int 4}"
    by (rule utc_inj_on) simp
  have fri: "dateFormat utcRuntime 20245 = ''Fri, Jun 6 2025''"
    by (simp add: calendar_simps)
  show ?thesis
    using gen vo2_interval_rows [OF gen tw inj, of 0] vo2_interval_rows [OF gen tw inj, of 3] fri
    by simp
qed

text \<open>
  Claim C4. Every row of the plan lies in one of its weeks. A heat-acclimation row is
  dated Tuesday (week start + 1 day), and a week has at most one. With a race plan and the monoblock setting, week \<open>w\<close> has one
  exactly when \<open>w \<ge> n - 2\<close> (the last two weeks); with a race plan and the biphasic
  setting, exactly when \<open>w < 2\<close> or \<open>w \<ge> n - 2\<close> (the first two and the last two
  weeks). With the setting none, or with a plan that is not a race plan, there is no
  heat-acclimation row anywhere in the plan.
\<close>

theorem heat_rows:
  assumes "generatePlan rt today inputs = Inr rows"
    and "totalWeeks rt today inputs = Num (of_nat n)"
    and "inj_on (dateFormat rt) {today ..< today + 7 * int n}"
    and "w < n"
  shows "filter (\<lambda>r. date r \<in> weekDates rt today w \<and> session r = hwiSession) rows
       = (if planType inputs = race
             \<and> (heatBlock inputs = monoblock \<and> n \<le> w + 2
                \<or> heatBlock inputs = biphasic \<and> (w < 2 \<or> n \<le> w + 2))
          then [\<lparr>date = dateFormat rt (today + 7 * int w + 1), session = hwiSession\<rparr>]
          else [])
       \<and> (planType inputs \<noteq> race \<or> heatBlock inputs = none
            \<longrightarrow> (\<forall>r\<in>set rows. session r \<noteq> hwiSession))
       \<and> (\<forall>r\<in>set rows. \<exists>v<n. date r \<in> weekDates rt today v)"
proof -
  let ?Q = "\<lambda>r. session r = hwiSession"
  have week: "filter ?Q (weekRows rt today inputs (Num (of_nat n)) w)
      = (if heatWeek inputs (Num (of_nat n)) w then [rowOn rt today w 1 hwiSession] else [])"
    by (simp add: weekRows_def rowOn_def session_defs)
  have "filter (\<lambda>r. date r \<in> weekDates rt today w \<and> ?Q r) rows
      = filter ?Q (weekRows rt today inputs (Num (of_nat n)) w)"
    using assms by (rule plan_week_filter) (simp add: week)
  then have a: "filter (\<lambda>r. date r \<in> weekDates rt today w \<and> session r = hwiSession) rows
       = (if planType inputs = race
             \<and> (heatBlock inputs = monoblock \<and> n \<le> w + 2
                \<or> heatBlock inputs = biphasic \<and> (w < 2 \<or> n \<le> w + 2))
          then [\<lparr>date = dateFormat rt (today + 7 * int w + 1), session = hwiSession\<rparr>]
          else [])"
    by (simp only: week heatWeek_nat rowOn_def)
  have b: "\<forall>r\<in>set rows. session r \<noteq> hwiSession"
    if "planType inputs \<noteq> race \<or> heatBlock inputs = none"
  proof -
    have "\<not> heatWeek inputs (Num (of_nat n)) v" for v
      using that by (auto simp: heatWeek_def)
    then have "\<forall>r\<in>set (weekRows rt today inputs (Num (of_nat n)) v). session r \<noteq> hwiSession" for v
      by (auto simp: weekRows_def rowOn_def session_defs)
    then show ?thesis
      unfolding plan_rows_set [OF assms(1,2)] by blast
  qed
  show ?thesis using a b plan_rows_in_weeks [OF assms(1,2)] by blast
qed

theorem heat_rows_witness:
  "\<exists>mono_rows bi_rows.
     generatePlan utcRuntime 20241 (scenario\<lparr>heatBlock := monoblock\<rparr>) = Inr mono_rows
     \<and> filter (\<lambda>r. date r \<in> weekDates utcRuntime 20241 1 \<and> session r = hwiSession) mono_rows = []
     \<and> filter (\<lambda>r. date r \<in> weekDates utcRuntime 20241 2 \<and> session r = hwiSession) mono_rows
         = [\<lparr>date = ''Tue, Jun 17 2025'', session = hwiSession\<rparr>]
     \<and> generatePlan utcRuntime 20241 (scenario\<lparr>heatBlock := biphasic\<rparr>) = Inr bi_rows
     \<and> filter (\<lambda>r. date r \<in> weekDates utcRuntime 20241 0 \<and> session r = hwiSession) bi_rows
         = [\<lparr>date = ''Tue, Jun 3 2025'', session = hwiSession\<rparr>]"
proof -
  obtain mono_rows
    where gen: "generatePlan utcRuntime 20241 (scenario\<lparr>heatBlock := monoblock\<rparr>) = Inr mono_rows"
    by (simp add: generatePlan_sorted_assembled)
  obtain bi_rows
    where gen': "generatePlan utcRuntime 20241 (scenario\<lparr>heatBlock := biphasic\<rparr>) = Inr bi_rows"
    by (simp add: generatePlan_sorted_assembled)
  have tw: "totalWeeks utcRuntime 20241 (scenario\<lparr>heatBlock := monoblock\<rparr>) = Num (of_nat 4)"
    by (rule totalWeeks_scenario) (simp_all add: scenario_def)
  have tw': "totalWeeks utcRuntime 20241 (scenario\<lparr>heatBlock := biphasic\<rparr>) = Num (of_nat 4)"
    by (rule totalWeeks_scenario) (simp_all add: scenario_def)
  have inj: "inj_on (dateFormat utcRuntime) {20241 ..< 20241 + 7 * int 4}"
    by (rule utc_inj_on) simp
  have days: "dateFormat utcRuntime 20256 = ''Tue, Jun 17 2025''"
      "dateFormat utcRuntime 20242 = ''Tue, Jun 3 2025''"
    by (simp_all add: calendar_simps)
  have race: "planType scenario = race" by (simp add: scenario_def)
  show ?thesis
    using gen gen' heat_rows [OF gen tw inj, of 1] heat_rows [OF gen tw inj, of 2]
      heat_rows [OF gen' tw' inj, of 0] days race
    by simp
qed

text \<open>
  Claim C5. Week \<open>w\<close> of a plan has the additional Saturday (week start + 5 days) VO2
  row if and only if the plan is a maintenance-plus plan, \<open>w\<close> is odd and \<open>w\<close> is not a
  deload week; then it has exactly one. A maintenance plan and a race plan have no
  such row in any week. Every row of the plan lies in one of its weeks.
\<close>

theorem maintenance_plus_rows:
  assumes "generatePlan rt today inputs = Inr rows"
    and "totalWeeks rt today inputs = Num (of_nat n)"
    and "inj_on (dateFormat rt) {today ..< today + 7 * int n}"
    and "w < n"
  shows "filter (\<lambda>r. date r \<in> weekDates rt today w \<and> session r = additionalVo2Session) rows
       = (if planType inputs = maintenance_plus \<and> w mod 2 = 1 \<and> w mod 4 \<noteq> 3
          then [\<lparr>date = dateFormat rt (today + 7 * int w + 5), session = additionalVo2Session\<rparr>]
          else [])
       \<and> (planType inputs \<noteq> maintenance_plus
            \<longrightarrow> (\<forall>r\<in>set rows. session r \<noteq> additionalVo2Session))
       \<and> (\<forall>r\<in>set rows. \<exists>v<n. date r \<in> weekDates rt today v)"
proof -
  let ?Q = "\<lambda>r. session r = additionalVo2Session"
  have week: "filter ?Q (weekRows rt today inputs (Num (of_nat n)) w)
      = (if planType inputs = maintenance_plus \<and> w mod 2 = 1 \<and> w mod 4 \<noteq> 3
         then [rowOn rt today w 5 additionalVo2Session] else [])"
    by (simp add: weekRows_def rowOn_def session_defs)
  have "filter (\<lambda>r. date r \<in> weekDates rt today w \<and> ?Q r) rows
      = filter ?Q (weekRows rt today inputs (Num (of_nat n)) w)"
    using assms by (rule plan_week_filter) (simp add: week)
  then have a: "filter (\<lambda>r. date r \<in> weekDates rt today w \<and> session r = additionalVo2Session) rows
       = (if planType inputs = maintenance_plus \<and> w mod 2 = 1 \<and> w mod 4 \<noteq> 3
          then [\<lparr>date = dateFormat rt (today + 7 * int w + 5), session = additionalVo2Session\<rparr>]
          else [])"
    by (simp only: week rowOn_def)
  have b: "\<forall>r\<in>set rows. session r \<noteq> additionalVo2Session"
    if "planType inputs \<noteq> maintenance_plus"
  proof -
    have "\<forall>r\<in>set (weekRows rt today inputs (Num (of_nat n)) v).
            session r \<noteq> additionalVo2Session" for v
      using that by (auto simp: weekRows_def rowOn_def session_defs)
    then show ?thesis
      unfolding plan_rows_set [OF assms(1,2)] by blast
  qed
  show ?thesis using a b plan_rows_in_weeks [OF assms(1,2)] by blast
qed

theorem maintenance_plus_rows_witness:
  "\<exists>rows. generatePlan utcRuntime 20241 (scenario\<lparr>planType := maintenance_plus\<rparr>) = Inr rows
     \<and> filter (\<lambda>r. date r \<in> weekDates utcRuntime 20241 1
                     \<and> session r = additionalVo2Session) rows
         = [\<lparr>date = ''Sat, Jun 14 2025'', session = additionalVo2Session\<rparr>]
     \<and> filter (\<lambda>r. date r \<in> weekDates utcRuntime 20241 2
                     \<and> session r = additionalVo2Session) rows = []
     \<and> filter (\<lambda>r. date r \<in> weekDates utcRuntime 20241 3
                     \<and> session r = additionalVo2Session) rows = []
     \<and> filter (\<lambda>r. date r \<in> weekDates utcRuntime 20241 5
                     \<and> session r = additionalVo2Session) rows
         = [\<lparr>date = ''Sat, Jul 12 2025'', session = additionalVo2Session\<rparr>]"
proof -
  obtain rows
    where gen: "generatePlan utcRuntime 20241 (scenario\<lparr>planType := maintenance_plus\<rparr>) = Inr rows"
    by (simp add: generatePlan_sorted_assembled)
  have tw: "totalWeeks utcRuntime 20241 (scenario\<lparr>planType := maintenance_plus\<rparr>)
      = Num (of_nat 12)"
    by (rule totalWeeks_not_race) (simp add: scenario_def)
  have inj: "inj_on (dateFormat utcRuntime) {20241 ..< 20241 + 7 * int 12}"
    by (rule utc_inj_on) simp
  have days: "dateFormat utcRuntime 20253 = ''Sat, Jun 14 2025''"
      "dateFormat utcRuntime 20281 = ''Sat, Jul 12 2025''"
    by (simp_all add: calendar_simps)
  show ?thesis
    using gen maintenance_plus_rows [OF gen tw inj, of 1] maintenance_plus_rows [OF gen tw inj, of 2]
      maintenance_plus_rows [OF gen tw inj, of 3] maintenance_plus_rows [OF gen tw inj, of 5] days
    by simp
qed

subsection \<open>Chronological order\<close>

text \<open>
  Claim C6. The returned rows are in ascending order of the calendar date their date
  field denotes: every row's date is the display form of a day of the plan and is read
  back by the sorter as that day, and for neighbouring rows \<open>rows ! i\<close> and
  \<open>rows ! (i + 1)\<close> the first day is not after the second. The runtime enters through
  the one fact the sorter relies on: \<^verbatim>\<open>new Date\<close> reads the display form of each day of
  the plan back as that day.
\<close>

theorem rows_chronological:
  assumes gen: "generatePlan rt today inputs = Inr rows"
    and tw: "totalWeeks rt today inputs = Num (of_nat n)"
    and rb: "\<forall>d\<in>{today ..< today + 7 * int n}. dateParse rt (dateFormat rt d) = Day d"
  shows "\<forall>i. i + 1 < length rows \<longrightarrow>
           (\<exists>a b. date (rows ! i) = dateFormat rt a \<and> dateParse rt (date (rows ! i)) = Day a
                \<and> date (rows ! (i + 1)) = dateFormat rt b
                \<and> dateParse rt (date (rows ! (i + 1))) = Day b
                \<and> a \<le> b)"
proof (intro allI impI)
  fix i assume i: "i + 1 < length rows"
  have valid: "\<exists>d. date r = dateFormat rt d \<and> dateParse rt (date r) = Day d"
    if "r \<in> set rows" for r
    using plan_row_days [OF gen tw that] rb by auto
  let ?all = "assembled rt today inputs"
  have rows: "rows = Array_sort (compareRows rt) ?all"
    using gen by (simp add: generatePlan_sorted_assembled)
  have "set ?all = set rows"
    unfolding rows by (metis mset_Array_sort set_mset_mset)
  then have "\<forall>x\<in>set ?all. \<exists>a. dateParse rt (date x) = Day a"
    using valid by blast
  then have "rows = sort_key (rowDay rt) ?all"
    unfolding rows by (rule Array_sort_sort_key)
  then have "sorted (map (rowDay rt) rows)"
    by (simp only: sorted_sort_key)
  then have le: "rowDay rt (rows ! i) \<le> rowDay rt (rows ! (i + 1))"
    using i by (simp add: sorted_iff_nth_mono)
  obtain a where a: "date (rows ! i) = dateFormat rt a" "dateParse rt (date (rows ! i)) = Day a"
    using valid [of "rows ! i"] i by auto
  obtain b where b: "date (rows ! (i + 1)) = dateFormat rt b"
      "dateParse rt (date (rows ! (i + 1))) = Day b"
    using valid [of "rows ! (i + 1)"] i by auto
  have "a \<le> b" using le a(2) b(2) by (simp add: rowDay_def)
  then show "\<exists>a b. date (rows ! i) = dateFormat rt a \<and> dateParse rt (date (rows ! i)) = Day a
                \<and> date (rows ! (i + 1)) = dateFormat rt b
                \<and> dateParse rt (date (rows ! (i + 1))) = Day b
                \<and> a \<le> b"
    using a b by blast
qed

theorem rows_chronological_witness:
  "\<exists>rows. generatePlan utcRuntime 20241 scenario = Inr rows
     \<and> (\<forall>i. i + 1 < length rows \<longrightarrow>
           (\<exists>a b. date (rows ! i) = dateFormat utcRuntime a
                \<and> dateParse utcRuntime (date (rows ! i)) = Day a
                \<and> date (rows ! (i + 1)) = dateFormat utcRuntime b
                \<and> dateParse utcRuntime (date (rows ! (i + 1))) = Day b
                \<and> a \<le> b))"
proof -
  obtain rows where gen: "generatePlan utcRuntime 20241 scenario = Inr rows"
    by (simp add: generatePlan_sorted_assembled)
  have tw: "totalWeeks utcRuntime 20241 scenario = Num (of_nat 4)"
    by (rule totalWeeks_scenario) (simp_all add: scenario_def)
  have rb: "\<forall>d\<in>{20241 ..< 20241 + 7 * int 4}.
      dateParse utcRuntime (dateFormat utcRuntime d) = Day d"
    by (rule utc_reads_back) simp
  show ?thesis
    using gen rows_chronological [OF gen tw rb] by blast
qed

end
